theory Spec2Isabelle
  imports Main
begin

section \<open>Front end of the eva\_gen language: tokenizer, position resolver, parser, AST\<close>

text \<open>
  A shallow embedding of \<^verbatim>\<open>common/front_end/lexer.py\<close>, \<^verbatim>\<open>common/front_end/parser.py\<close>
  and \<^verbatim>\<open>common/ast/nodes.py\<close>. Python strings are HOL strings (the inputs considered are
  ASCII, where a \<^typ>\<open>char\<close> and a code point coincide); lengths, offsets, line numbers and
  columns are natural numbers (every one of them is a \<^verbatim>\<open>len(...)\<close> or a difference of the
  form \<^verbatim>\<open>len(code) - len(rest)\<close> with \<^verbatim>\<open>rest\<close> a suffix of \<^verbatim>\<open>code\<close>); exceptions are values
  of the type \<open>error\<close>.
\<close>

subsection \<open>Positions, spans and errors\<close>

text \<open>\<^verbatim>\<open>LineCol = namedtuple("LineCol", "line col")\<close>\<close>

record LineCol =
  line :: nat
  col :: nat

text \<open>Python compares named tuples lexicographically.\<close>

definition LineCol_le :: "LineCol \<Rightarrow> LineCol \<Rightarrow> bool" where
  "LineCol_le a b = (line a < line b \<or> (line a = line b \<and> col a \<le> col b))"

text \<open>The line feed character, \<^verbatim>\<open>"\n"\<close>.\<close>

definition nl :: char where
  "nl = CHR 0x0A"

definition tab :: char where
  "tab = CHR 0x09"

text \<open>\<^verbatim>\<open>str(n)\<close> for a non-negative integer: its decimal digits.\<close>

definition digit_char :: "nat \<Rightarrow> char" where
  "digit_char d = ''0123456789'' ! d"

fun str_nat :: "nat \<Rightarrow> string" where
  "str_nat n = (if n < 10 then [digit_char n] else str_nat (n div 10) @ [digit_char (n mod 10)])"

declare str_nat.simps [simp del]

text \<open>
  The exceptions of the front end. \<open>ParseError\<close> carries the text given to
  \<^verbatim>\<open>Exception.__init__\<close> and the attribute \<^verbatim>\<open>position\<close>; \<open>ValueError\<close> is raised by
  \<^verbatim>\<open>get_line\<close> and by \<^verbatim>\<open>float\<close>; \<open>OutOfFuel\<close> is not a Python exception: it says that
  the recursion bound of the model was too small for the input.
\<close>

datatype error =
    ParseError string LineCol
  | ValueError string
  | OutOfFuel

text \<open>
  \<^verbatim>\<open>ParseError.__init__(self, message, line, position)\<close>:
  \<^verbatim>\<open>line_str = str(position.line)\<close>,
  \<^verbatim>\<open>caret = ' ' * (position.col + len(line_str)) + '^'\<close>,
  text \<^verbatim>\<open>f"{message}\n{line_str}| {line}\n{caret}"\<close>.
\<close>

definition ParseError_text :: "string \<Rightarrow> string \<Rightarrow> LineCol \<Rightarrow> string" where
  "ParseError_text message ln position =
     (let line_str = str_nat (line position);
          caret = replicate (col position + length line_str) CHR '' '' @ ''^''
      in message @ [nl] @ line_str @ ''| '' @ ln @ [nl] @ caret)"

definition ParseError_init :: "string \<Rightarrow> string \<Rightarrow> LineCol \<Rightarrow> error" where
  "ParseError_init message ln position = ParseError (ParseError_text message ln position) position"

subsection \<open>Token patterns\<close>

text \<open>
  A compiled pattern is modelled by what \<^verbatim>\<open>pattern.match(s)\<close> returns: \<open>None\<close> when the
  pattern does not match at offset 0 of \<open>s\<close>, and \<open>Some n\<close> with \<open>n = m.end(0)\<close> when it does
  (\<^verbatim>\<open>match\<close> is anchored at the start, so \<^verbatim>\<open>m.start(0) == 0\<close> always holds). The
  combinators follow Python's backtracking semantics on the patterns of the table:
  alternatives are tried left to right and the first that matches is taken, repetitions
  and the optional group are greedy. No pattern of the table has anything after a
  repetition that could fail, so no repetition ever gives characters back.
\<close>

type_synonym pattern = "string \<Rightarrow> nat option"

definition lit :: "string \<Rightarrow> pattern" where
  "lit w s = (if take (length w) s = w then Some (length w) else None)"

definition many :: "(char \<Rightarrow> bool) \<Rightarrow> pattern" where
  "many p s = Some (length (takeWhile p s))"

definition many1 :: "(char \<Rightarrow> bool) \<Rightarrow> pattern" where
  "many1 p s = (if takeWhile p s = [] then None else Some (length (takeWhile p s)))"

definition one :: "(char \<Rightarrow> bool) \<Rightarrow> pattern" where
  "one p s = (case s of [] \<Rightarrow> None | c # cs \<Rightarrow> if p c then Some 1 else None)"

definition seq :: "pattern \<Rightarrow> pattern \<Rightarrow> pattern" where
  "seq a b s =
     (case a s of None \<Rightarrow> None
      | Some n \<Rightarrow> (case b (drop n s) of None \<Rightarrow> None | Some m \<Rightarrow> Some (n + m)))"

definition alt :: "pattern \<Rightarrow> pattern \<Rightarrow> pattern" where
  "alt a b s = (case a s of Some n \<Rightarrow> Some n | None \<Rightarrow> b s)"

definition opt :: "pattern \<Rightarrow> pattern" where
  "opt a s = (case a s of Some n \<Rightarrow> Some n | None \<Rightarrow> Some 0)"

text \<open>Character classes, by code point ranges.\<close>

definition in_range :: "char \<Rightarrow> char \<Rightarrow> char \<Rightarrow> bool" where
  "in_range lo hi c = ((of_char lo :: nat) \<le> of_char c \<and> (of_char c :: nat) \<le> of_char hi)"

definition ident_start :: "char \<Rightarrow> bool" where
  "ident_start c = (in_range CHR ''a'' CHR ''z'' c \<or> in_range CHR ''A'' CHR ''Z'' c \<or> c = CHR ''_'')"

definition ident_char :: "char \<Rightarrow> bool" where
  "ident_char c = (in_range CHR ''a'' CHR ''z'' c \<or> in_range CHR ''A'' CHR ''Z'' c
      \<or> in_range CHR ''0'' CHR ''9'' c \<or> c = CHR ''_'')"

definition digit :: "char \<Rightarrow> bool" where
  "digit c = in_range CHR ''0'' CHR ''9'' c"

definition hex_digit :: "char \<Rightarrow> bool" where
  "hex_digit c = (in_range CHR ''0'' CHR ''9'' c \<or> in_range CHR ''A'' CHR ''F'' c)"

definition oct_digit :: "char \<Rightarrow> bool" where
  "oct_digit c = in_range CHR ''0'' CHR ''7'' c"

definition blank :: "char \<Rightarrow> bool" where
  "blank c = (c = CHR '' '' \<or> c = tab \<or> c = nl)"

text \<open>\<^verbatim>\<open>([0-9]+(\.[0-9]+)?|0x[0-9A-F]+|0o[0-7]+)\<close>\<close>

definition NUMBER_pattern :: pattern where
  "NUMBER_pattern =
     alt (seq (many1 digit) (opt (seq (lit ''.'') (many1 digit))))
       (alt (seq (lit ''0x'') (many1 hex_digit))
            (seq (lit ''0o'') (many1 oct_digit)))"

text \<open>\<^verbatim>\<open>[a-zA-Z_][a-zA-Z0-9_]*\<close>\<close>

definition IDENT_pattern :: pattern where
  "IDENT_pattern = seq (one ident_start) (many ident_char)"

text \<open>
  The table \<^verbatim>\<open>TOKENS\<close>. A Python dict keeps insertion order, and \<^verbatim>\<open>TOKENS.items()\<close>
  yields the rules in the order they are written.
\<close>

definition TOKENS :: "(string \<times> pattern) list" where
  "TOKENS =
    [(''UNOP'', lit ''not''),
     (''BIN_POWER'', lit ''**''),
     (''BIN_MULT'', lit ''*''),
     (''BIN_DIV'', lit ''/''),
     (''BIN_ADD'', lit ''+''),
     (''BIN_SUB'', lit ''-''),
     (''KW_VAR'', lit ''var''),
     (''KW_FUN'', lit ''fun''),
     (''KW_WHILE'', lit ''while''),
     (''KW_RETURN'', lit ''return''),
     (''KW_EXTERN'', lit ''extern''),
     (''IDENT'', IDENT_pattern),
     (''NUMBER'', NUMBER_pattern),
     (''EQUALS'', lit ''=''),
     (''LESSTHAN'', lit ''<''),
     (''LESSEQUAL'', lit ''<=''),
     (''GREATERTHAN'', lit ''>''),
     (''GREATEREQUAL'', lit ''>=''),
     (''LEFT_PARENT'', lit ''(''),
     (''RIGHT_PARENT'', lit '')''),
     (''LEFT_BRACE'', lit ''{''),
     (''RIGHT_BRACE'', lit ''}''),
     (''COMMA'', lit '',''),
     (''_IGNORE'', many1 blank)]"

text \<open>
  The \<^verbatim>\<open>for k, v in TOKENS.items()\<close> loop: the first rule, in table order, whose pattern
  matches at the start of \<open>s\<close>, with the end of its match.
\<close>

fun first_match :: "(string \<times> pattern) list \<Rightarrow> string \<Rightarrow> (string \<times> nat) option" where
  "first_match [] s = None"
| "first_match ((k, v) # ts) s =
     (case v s of Some n \<Rightarrow> Some (k, n) | None \<Rightarrow> first_match ts s)"

subsection \<open>Position resolver\<close>

text \<open>\<^verbatim>\<open>s.split("\n")\<close>: the segments between line feeds; never the empty list.\<close>

fun split_nl :: "string \<Rightarrow> string list" where
  "split_nl [] = [[]]"
| "split_nl (c # cs) =
     (if c = nl then [] # split_nl cs
      else (case split_nl cs of l # ls \<Rightarrow> (c # l) # ls | [] \<Rightarrow> [[c]]))"

text \<open>
  The loop of \<^verbatim>\<open>linecol_from_position\<close> over \<^verbatim>\<open>enumerate(lines)\<close>, from index \<open>i\<close> with
  the running \<^verbatim>\<open>curpos\<close>; \<open>None\<close> when the loop ends without returning. In the branch
  that returns, \<open>curpos \<le> position\<close> (it is 0, or a sum that the previous test found
  smaller than \<open>position\<close>), so the subtraction is the one of Python.
\<close>

fun linecol_scan :: "string list \<Rightarrow> nat \<Rightarrow> nat \<Rightarrow> nat \<Rightarrow> LineCol option" where
  "linecol_scan [] i curpos position = None"
| "linecol_scan (l # ls) i curpos position =
     (if curpos + length l \<ge> position
      then Some \<lparr>line = i + 1, col = position - curpos + 1\<rparr>
      else linecol_scan ls (i + 1) (curpos + length l) position)"

definition linecol_from_position :: "string \<Rightarrow> nat \<Rightarrow> LineCol" where
  "linecol_from_position code position =
     (let lines = split_nl code in
      case linecol_scan lines 0 0 position of
        Some lc \<Rightarrow> lc
      | None \<Rightarrow> \<lparr>line = length lines, col = length (last lines)\<rparr>)"

text \<open>The loop of \<^verbatim>\<open>get_line\<close> over \<^verbatim>\<open>enumerate(lines)\<close>, from index \<open>i\<close>.\<close>

fun get_line_scan :: "string list \<Rightarrow> nat \<Rightarrow> nat \<Rightarrow> error + string" where
  "get_line_scan [] i lineno = Inl (ValueError (''Bad line number: '' @ str_nat lineno))"
| "get_line_scan (l # ls) i lineno =
     (if i + 1 = lineno then Inr l else get_line_scan ls (i + 1) lineno)"

definition get_line :: "string \<Rightarrow> nat \<Rightarrow> error + string" where
  "get_line code lineno = get_line_scan (split_nl code) 0 lineno"

subsection \<open>Tokenizer\<close>

type_synonym Token = "string \<times> string"

record Lexer =
  code :: string
  rest :: string
  position :: nat

definition Lexer_init :: "string \<Rightarrow> Lexer" where
  "Lexer_init c = \<lparr>code = c, rest = c, position = 0\<rparr>"

definition linecol :: "Lexer \<Rightarrow> LineCol" where
  "linecol lx = linecol_from_position (code lx) (position lx)"

definition cur_line :: "Lexer \<Rightarrow> error + string" where
  "cur_line lx = get_line (code lx) (line (linecol lx))"

text \<open>
  \<^verbatim>\<open>raise ParseError(message, self.cur_line, self.linecol)\<close>: the arguments are evaluated
  first, so an exception of \<^verbatim>\<open>cur_line\<close> would replace the \<open>ParseError\<close>.
\<close>

definition raise_ParseError :: "string \<Rightarrow> Lexer \<Rightarrow> error" where
  "raise_ParseError message lx =
     (case cur_line lx of Inl e \<Rightarrow> e | Inr l \<Rightarrow> ParseError_init message l (linecol lx))"

text \<open>The state after a match ending at \<open>n\<close>: \<^verbatim>\<open>self.rest = self.rest[m.end(0):]\<close>,
  \<^verbatim>\<open>self.position = len(self.code) - len(self.rest)\<close>.\<close>

definition advance :: "nat \<Rightarrow> Lexer \<Rightarrow> Lexer" where
  "advance n lx =
     lx\<lparr>rest := drop n (rest lx), position := length (code lx) - length (drop n (rest lx))\<rparr>"

text \<open>
  The \<^verbatim>\<open>while go_again\<close> loop of \<^verbatim>\<open>__next__\<close> and what follows it. The result is an
  exception, or the lexer after the call together with \<open>Some\<close> token, or with \<open>None\<close> for
  \<^verbatim>\<open>StopIteration\<close>. A match of the rule \<^verbatim>\<open>_IGNORE\<close> runs the loop again.
\<close>

lemma first_match_IGNORE:
  assumes "first_match TOKENS s = Some (k, n)" and "k = ''_IGNORE''"
  shows "0 < n \<and> n \<le> length s"
proof -
  from assms have "many1 blank s = Some n"
    by (simp add: TOKENS_def split: option.splits)
  then have "n = length (takeWhile blank s)" and "takeWhile blank s \<noteq> []"
    by (auto simp: many1_def split: if_splits)
  then show ?thesis
    by (simp add: length_takeWhile_le)
qed

function scan :: "Lexer \<Rightarrow> error + (Token option \<times> Lexer)" where
  "scan lx =
     (case first_match TOKENS (rest lx) of
        Some (k, n) \<Rightarrow>
          if k = ''_IGNORE'' then scan (advance n lx)
          else Inr (Some (k, take n (rest lx)), advance n lx)
      | None \<Rightarrow>
          if length (rest lx) = 0 then Inr (None, lx)
          else Inl (raise_ParseError ''Cannot lex input code'' lx))"
  by pat_completeness auto
termination
proof (relation "measure (\<lambda>lx. length (rest lx))")
  show "wf (measure (\<lambda>lx. length (rest lx)))" by simp
next
  fix lx :: Lexer and x2 :: "string \<times> nat" and k :: string and n :: nat
  assume "first_match TOKENS (rest lx) = Some x2" and "(k, n) = x2" and "k = ''_IGNORE''"
  then have "0 < n \<and> n \<le> length (rest lx)"
    using first_match_IGNORE [of "rest lx" k n] by simp
  then have "length (rest lx) - n < length (rest lx)"
    by arith
  then show "(advance n lx, lx) \<in> measure (\<lambda>lx. length (rest lx))"
    by (simp add: advance_def)
qed

declare scan.simps [simp del]

definition lexer_next :: "Lexer \<Rightarrow> error + (Token option \<times> Lexer)" where
  "lexer_next lx = (if length (rest lx) = 0 then Inr (None, lx) else scan lx)"

subsection \<open>Syntax tree\<close>

text \<open>\<^verbatim>\<open>@dataclass class Span: start: LineCol; end: LineCol\<close>\<close>

record Span =
  start :: LineCol
  end' :: LineCol

datatype BinaryOperation = ADD | SUB | MULT | DIV | POWER | AND | OR

datatype UnaryOperation = PRINT | NOT

text \<open>
  The node classes, one constructor each, with the arguments of \<^verbatim>\<open>__init__\<close> in their
  order. \<^verbatim>\<open>ValueNode\<close> stores \<^verbatim>\<open>float(value)\<close>: the model keeps the decimal literal that
  determines that float.
\<close>

datatype node =
    DeclarationNode Span string
  | AssignmentNode Span string node
  | ValueNode Span string
  | BinaryOperationNode Span node BinaryOperation node
  | UnaryOperationNode Span UnaryOperation node
  | ReturnStatementNode Span node
  | CodeBlockNode Span "node list"
  | WhileNode Span node node
  | IdentNode Span string
  | FunctionNode Span string "node list" node
  | ExternFunctionNode Span string "node list"
  | FunctionCallNode Span string "node list"

text \<open>
  \<^verbatim>\<open>visit(self, visitor)\<close> of every class. The callback is called for its effect, so it is
  a state transformer here; \<^verbatim>\<open>BaseNode.visit\<close> is \<^verbatim>\<open>visitor(self)\<close>, and a class that
  does not override \<^verbatim>\<open>visit\<close> inherits it.
\<close>

definition BaseNode_visit :: "node \<Rightarrow> (node \<Rightarrow> 's \<Rightarrow> 's) \<Rightarrow> 's \<Rightarrow> 's" where
  "BaseNode_visit self visitor s = visitor self s"

fun visit :: "node \<Rightarrow> (node \<Rightarrow> 's \<Rightarrow> 's) \<Rightarrow> 's \<Rightarrow> 's" where
  "visit (DeclarationNode sp ident) visitor s =
     BaseNode_visit (DeclarationNode sp ident) visitor s"
| "visit (AssignmentNode sp ident expr) visitor s =
     BaseNode_visit (AssignmentNode sp ident expr) visitor s"
| "visit (ValueNode sp v) visitor s =
     BaseNode_visit (ValueNode sp v) visitor s"
| "visit (BinaryOperationNode sp left op right) visitor s =
     BaseNode_visit (BinaryOperationNode sp left op right) visitor
       (visitor right (visitor left s))"
| "visit (UnaryOperationNode sp op operand) visitor s =
     BaseNode_visit (UnaryOperationNode sp op operand) visitor (visitor operand s)"
| "visit (ReturnStatementNode sp expr) visitor s =
     BaseNode_visit (ReturnStatementNode sp expr) visitor (visitor expr s)"
| "visit (CodeBlockNode sp block) visitor s =
     BaseNode_visit (CodeBlockNode sp block) visitor (fold visitor block s)"
| "visit (WhileNode sp condition block) visitor s =
     BaseNode_visit (WhileNode sp condition block) visitor
       (visitor block (visitor condition s))"
| "visit (IdentNode sp ident) visitor s =
     BaseNode_visit (IdentNode sp ident) visitor s"
| "visit (FunctionNode sp name args block) visitor s =
     BaseNode_visit (FunctionNode sp name args block) visitor
       (visitor block (fold visitor args s))"
| "visit (ExternFunctionNode sp name args) visitor s =
     BaseNode_visit (ExternFunctionNode sp name args) visitor (fold visitor args s)"
| "visit (FunctionCallNode sp ident args) visitor s =
     BaseNode_visit (FunctionCallNode sp ident args) visitor (fold visitor args s)"

text \<open>A recording callback: it appends the node it is called on to a log.\<close>

definition recorder :: "node \<Rightarrow> node list \<Rightarrow> node list" where
  "recorder n log = log @ [n]"

text \<open>The attribute \<^verbatim>\<open>span\<close>, and the child nodes in the order of the fields.\<close>

fun span :: "node \<Rightarrow> Span" where
  "span (DeclarationNode sp ident) = sp"
| "span (AssignmentNode sp ident expr) = sp"
| "span (ValueNode sp v) = sp"
| "span (BinaryOperationNode sp left op right) = sp"
| "span (UnaryOperationNode sp op operand) = sp"
| "span (ReturnStatementNode sp expr) = sp"
| "span (CodeBlockNode sp block) = sp"
| "span (WhileNode sp condition block) = sp"
| "span (IdentNode sp ident) = sp"
| "span (FunctionNode sp name args block) = sp"
| "span (ExternFunctionNode sp name args) = sp"
| "span (FunctionCallNode sp ident args) = sp"

fun children :: "node \<Rightarrow> node list" where
  "children (DeclarationNode sp ident) = []"
| "children (AssignmentNode sp ident expr) = [expr]"
| "children (ValueNode sp v) = []"
| "children (BinaryOperationNode sp left op right) = [left, right]"
| "children (UnaryOperationNode sp op operand) = [operand]"
| "children (ReturnStatementNode sp expr) = [expr]"
| "children (CodeBlockNode sp block) = block"
| "children (WhileNode sp condition block) = [condition, block]"
| "children (IdentNode sp ident) = []"
| "children (FunctionNode sp name args block) = args @ [block]"
| "children (ExternFunctionNode sp name args) = args"
| "children (FunctionCallNode sp ident args) = args"

text \<open>
  \<^verbatim>\<open>float(value)\<close> in \<^verbatim>\<open>ValueNode.__init__\<close>, on the texts that the rule \<^verbatim>\<open>NUMBER\<close> is
  written to match: digits with an optional fraction are converted, the shapes
  \<^verbatim>\<open>0x...\<close> and \<^verbatim>\<open>0o...\<close> raise \<^verbatim>\<open>ValueError\<close>.
\<close>

definition decimal_shape :: "string \<Rightarrow> bool" where
  "decimal_shape v =
     (seq (many1 digit) (opt (seq (lit ''.'') (many1 digit))) v = Some (length v))"

definition ValueNode_init :: "Span \<Rightarrow> string \<Rightarrow> error + node" where
  "ValueNode_init sp v =
     (if decimal_shape v then Inr (ValueNode sp v)
      else Inl (ValueError (''could not convert string to float: '' @ v)))"

text \<open>\<^verbatim>\<open>UnaryOperation(op)\<close>: the member of the enumeration with that value.\<close>

definition UnaryOperation_of :: "string \<Rightarrow> error + UnaryOperation" where
  "UnaryOperation_of v =
     (if v = ''print'' then Inr PRINT
      else if v = ''not'' then Inr NOT
      else Inl (ValueError (v @ '' is not a valid UnaryOperation'')))"

subsection \<open>Parser\<close>

text \<open>
  The parser holds the lexer and the lookahead token. \<^verbatim>\<open>Parser(code)\<close> with a string
  and \<^verbatim>\<open>incomplete=False\<close> starts at the token \<^verbatim>\<open>("_SOI", "")\<close>.
\<close>

record Parser =
  lexer :: Lexer
  token :: Token

definition Parser_init :: "string \<Rightarrow> Parser" where
  "Parser_init c = \<lparr>lexer = Lexer_init c, token = (''_SOI'', [])\<rparr>"

text \<open>The property \<^verbatim>\<open>Parser.position\<close>: \<^verbatim>\<open>self.lexer.linecol\<close>.\<close>

definition Parser_position :: "Parser \<Rightarrow> LineCol" where
  "Parser_position p = linecol (lexer p)"

definition peek :: "Parser \<Rightarrow> string" where
  "peek p = fst (token p)"

text \<open>
  A method of the parser returns a value and the parser after the call, or an exception.
\<close>

type_synonym 'a parsing = "Parser \<Rightarrow> error + ('a \<times> Parser)"

definition bind :: "'a parsing \<Rightarrow> ('a \<Rightarrow> 'b parsing) \<Rightarrow> 'b parsing" where
  "bind m f p = (case m p of Inl e \<Rightarrow> Inl e | Inr (x, p') \<Rightarrow> f x p')"

definition return :: "'a \<Rightarrow> 'a parsing" where
  "return x p = Inr (x, p)"

definition raise :: "string \<Rightarrow> 'a parsing" where
  "raise message p = Inl (raise_ParseError message (lexer p))"

text \<open>
  \<^verbatim>\<open>eat\<close>: \<^verbatim>\<open>next(self.lexer)\<close> changes the lexer also when it ends in
  \<^verbatim>\<open>StopIteration\<close>, which is caught here; a \<open>ParseError\<close> of the lexer is not.
\<close>

definition eat :: "string \<Rightarrow> string parsing" where
  "eat tk p =
     (let cur_token = peek p in
      if cur_token = tk then
        (let v = snd (token p) in
         case lexer_next (lexer p) of
           Inl e \<Rightarrow> Inl e
         | Inr (Some t, lx) \<Rightarrow> Inr (v, \<lparr>lexer = lx, token = t\<rparr>)
         | Inr (None, lx) \<Rightarrow> Inr (v, \<lparr>lexer = lx, token = (''_EOI'', [])\<rparr>))
      else if cur_token = ''_EOI'' then
        raise (''Unexpected end of file, expecting '' @ tk) p
      else
        raise (''Unexpected token '' @ fst (token p) @ '', expecting '' @ tk) p)"

definition is_next :: "string \<Rightarrow> Parser \<Rightarrow> bool" where
  "is_next tk p = (peek p = tk)"

definition accept :: "string \<Rightarrow> bool parsing" where
  "accept tk p =
     (if is_next tk p then bind (eat tk) (\<lambda>_. return True) p else return False p)"

definition parse_value :: "node parsing" where
  "parse_value p =
     (let start = Parser_position p in
      if is_next ''NUMBER'' p then
        bind (eat ''NUMBER'') (\<lambda>v p'.
          case ValueNode_init \<lparr>start = start, end' = Parser_position p'\<rparr> v of
            Inl e \<Rightarrow> Inl e | Inr nd \<Rightarrow> Inr (nd, p')) p
      else if is_next ''IDENT'' p then
        bind (eat ''IDENT'') (\<lambda>ident p'.
          Inr (IdentNode \<lparr>start = start, end' = Parser_position p'\<rparr> ident, p')) p
      else
        (case get_line (code (lexer p)) (line start) of
           Inl e \<Rightarrow> Inl e
         | Inr l \<Rightarrow> Inl (ParseError_init ''Syntax error'' l start)))"

text \<open>
  The recursive methods call one another through \<^verbatim>\<open>self\<close>. In the model \<open>self\<close> is the
  table of these methods, and each method is first written with the table it calls as
  an argument (\<open>parse_function_body self\<close> is the body of \<^verbatim>\<open>parse_function\<close>, a call
  \<^verbatim>\<open>self.parse_codeblock(force=True)\<close> in it is \<open>parse_codeblock self True\<close>). The generators
  \<^verbatim>\<open>gen()\<close> of \<^verbatim>\<open>parse\<close> and \<^verbatim>\<open>parse_codeblock\<close>, consumed at once by \<^verbatim>\<open>list\<close>, are
  \<open>parse_gen\<close> and \<open>parse_codeblock_gen\<close>; the \<^verbatim>\<open>while self.accept("COMMA")\<close> loop of
  \<^verbatim>\<open>parse_comma_list\<close> is \<open>parse_comma_list_loop\<close>.
\<close>

record methods =
  parse_gen :: "node list parsing"
  parse_function :: "node parsing"
  parse_codeblock :: "bool \<Rightarrow> node parsing"
  parse_codeblock_gen :: "node list parsing"
  parse_statement :: "node parsing"
  parse_declaration :: "node parsing"
  parse_assignment :: "node parsing"
  parse_expression :: "node parsing"
  parse_expr_add :: "node parsing"
  parse_expr_sub :: "node parsing"
  parse_expr_mult :: "node parsing"
  parse_expr_div :: "node parsing"
  parse_expr_power :: "node parsing"
  parse_function_call :: "node parsing"
  parse_expr_unary :: "node parsing"
  parse_parent_expr :: "node parsing"
  parse_comma_list :: "string \<Rightarrow> node list parsing"
  parse_comma_list_loop :: "node list \<Rightarrow> node list parsing"

definition parse_gen_body :: "methods \<Rightarrow> node list parsing" where
  "parse_gen_body self p =
     (if \<not> is_next ''_EOI'' p then
        bind (parse_function self) (\<lambda>f. bind (parse_gen self) (\<lambda>fs. return (f # fs))) p
      else return [] p)"

definition parse_function_body :: "methods \<Rightarrow> node parsing" where
  "parse_function_body self p =
     (let start = Parser_position p in
      bind (accept ''KW_EXTERN'') (\<lambda>is_extern.
      bind (accept ''KW_FUN'') (\<lambda>is_fun.
        if is_fun then
          bind (eat ''IDENT'') (\<lambda>name.
          bind (eat ''LEFT_PARENT'') (\<lambda>_.
          bind (parse_comma_list self ''RIGHT_PARENT'') (\<lambda>args.
          bind (eat ''RIGHT_PARENT'') (\<lambda>_.
            if \<not> is_extern then
              bind (parse_codeblock self True) (\<lambda>code p'.
                Inr (FunctionNode \<lparr>start = start, end' = Parser_position p'\<rparr> name args code, p'))
            else
              (\<lambda>p'. Inr (ExternFunctionNode \<lparr>start = start, end' = Parser_position p'\<rparr>
                            name args, p'))))))
        else parse_codeblock self False)) p)"

definition parse_codeblock_body :: "methods \<Rightarrow> bool \<Rightarrow> node parsing" where
  "parse_codeblock_body self force p =
     (let start = Parser_position p in
      bind (accept ''LEFT_BRACE'') (\<lambda>braced.
        if braced then
          bind (parse_codeblock_gen self) (\<lambda>block.
          bind (eat ''RIGHT_BRACE'') (\<lambda>_ p'.
            Inr (CodeBlockNode \<lparr>start = start, end' = Parser_position p'\<rparr> block, p')))
        else if force then raise ''Code block need braces''
        else
          bind (parse_declaration self) (\<lambda>d p'.
            Inr (CodeBlockNode \<lparr>start = start, end' = Parser_position p'\<rparr> [d], p'))) p)"

definition parse_codeblock_gen_body :: "methods \<Rightarrow> node list parsing" where
  "parse_codeblock_gen_body self p =
     (if \<not> is_next ''RIGHT_BRACE'' p then
        bind (parse_statement self) (\<lambda>st. bind (parse_codeblock_gen self) (\<lambda>sts. return (st # sts))) p
      else return [] p)"

definition parse_statement_body :: "methods \<Rightarrow> node parsing" where
  "parse_statement_body self p =
     (let start = Parser_position p in
      bind (accept ''KW_RETURN'') (\<lambda>is_return.
        if is_return then
          bind (parse_expression self) (\<lambda>expr p'.
            Inr (ReturnStatementNode \<lparr>start = start, end' = Parser_position p'\<rparr> expr, p'))
        else
          bind (accept ''KW_WHILE'') (\<lambda>is_while.
            if is_while then
              bind (parse_expression self) (\<lambda>cond.
              bind (parse_codeblock self False) (\<lambda>block p'.
                Inr (WhileNode \<lparr>start = start, end' = Parser_position p'\<rparr> cond block, p')))
            else parse_declaration self)) p)"

definition parse_declaration_body :: "methods \<Rightarrow> node parsing" where
  "parse_declaration_body self p =
     (let start = Parser_position p in
      bind (accept ''KW_VAR'') (\<lambda>is_var.
        if is_var then
          bind (eat ''IDENT'') (\<lambda>ident p'.
            Inr (DeclarationNode \<lparr>start = start, end' = Parser_position p'\<rparr> ident, p'))
        else parse_assignment self) p)"

definition parse_assignment_body :: "methods \<Rightarrow> node parsing" where
  "parse_assignment_body self p =
     (let start = Parser_position p in
      bind (parse_expression self) (\<lambda>left.
      bind (accept ''EQUALS'') (\<lambda>is_assign.
        if is_assign then
          (case left of
             IdentNode sp ident \<Rightarrow>
               bind (parse_expression self) (\<lambda>expr p'.
                 Inr (AssignmentNode \<lparr>start = start, end' = Parser_position p'\<rparr> ident expr, p'))
           | _ \<Rightarrow> raise ''Syntax error'')
        else return left)) p)"

definition parse_expression_body :: "methods \<Rightarrow> node parsing" where
  "parse_expression_body self p =
     bind (accept ''LEFT_PARENT'') (\<lambda>parenthesised.
       if parenthesised then
         bind (parse_expression self) (\<lambda>e. bind (eat ''RIGHT_PARENT'') (\<lambda>_. return e))
       else parse_expr_add self) p"

definition parse_expr_add_body :: "methods \<Rightarrow> node parsing" where
  "parse_expr_add_body self p =
     (let start = Parser_position p in
      bind (parse_expr_sub self) (\<lambda>left.
      bind (accept ''BIN_ADD'') (\<lambda>is_op.
        if is_op then
          bind (parse_expr_add self) (\<lambda>right p'.
            Inr (BinaryOperationNode \<lparr>start = start, end' = Parser_position p'\<rparr>
                   left ADD right, p'))
        else return left)) p)"

definition parse_expr_sub_body :: "methods \<Rightarrow> node parsing" where
  "parse_expr_sub_body self p =
     (let start = Parser_position p in
      bind (parse_expr_mult self) (\<lambda>left.
      bind (accept ''BIN_SUB'') (\<lambda>is_op.
        if is_op then
          bind (parse_expr_add self) (\<lambda>right p'.
            Inr (BinaryOperationNode \<lparr>start = start, end' = Parser_position p'\<rparr>
                   left SUB right, p'))
        else return left)) p)"

definition parse_expr_mult_body :: "methods \<Rightarrow> node parsing" where
  "parse_expr_mult_body self p =
     (let start = Parser_position p in
      bind (parse_expr_div self) (\<lambda>left.
      bind (accept ''BIN_MULT'') (\<lambda>is_op.
        if is_op then
          bind (parse_expr_mult self) (\<lambda>right p'.
            Inr (BinaryOperationNode \<lparr>start = start, end' = Parser_position p'\<rparr>
                   left MULT right, p'))
        else return left)) p)"

definition parse_expr_div_body :: "methods \<Rightarrow> node parsing" where
  "parse_expr_div_body self p =
     (let start = Parser_position p in
      bind (parse_expr_power self) (\<lambda>left.
      bind (accept ''BIN_DIV'') (\<lambda>is_op.
        if is_op then
          bind (parse_expr_mult self) (\<lambda>right p'.
            Inr (BinaryOperationNode \<lparr>start = start, end' = Parser_position p'\<rparr>
                   left DIV right, p'))
        else return left)) p)"

definition parse_expr_power_body :: "methods \<Rightarrow> node parsing" where
  "parse_expr_power_body self p =
     (let start = Parser_position p in
      bind (parse_function_call self) (\<lambda>left.
      bind (accept ''BIN_POWER'') (\<lambda>is_op.
        if is_op then
          bind (parse_expr_power self) (\<lambda>right p'.
            Inr (BinaryOperationNode \<lparr>start = start, end' = Parser_position p'\<rparr>
                   left POWER right, p'))
        else return left)) p)"

definition parse_function_call_body :: "methods \<Rightarrow> node parsing" where
  "parse_function_call_body self p =
     (let start = Parser_position p in
      bind (parse_expr_unary self) (\<lambda>left.
      bind (accept ''LEFT_PARENT'') (\<lambda>is_call.
        if is_call then
          (case left of
             IdentNode sp ident \<Rightarrow>
               bind (parse_comma_list self ''RIGHT_PARENT'') (\<lambda>args.
               bind (eat ''RIGHT_PARENT'') (\<lambda>_ p'.
                 Inr (FunctionCallNode \<lparr>start = start, end' = Parser_position p'\<rparr>
                        ident args, p')))
           | _ \<Rightarrow> raise ''Syntax error'')
        else return left)) p)"

definition parse_expr_unary_body :: "methods \<Rightarrow> node parsing" where
  "parse_expr_unary_body self p =
     (let start = Parser_position p in
      if is_next ''UNOP'' p then
        bind (eat ''UNOP'') (\<lambda>op.
        bind (parse_function_call self) (\<lambda>operand p'.
          case UnaryOperation_of op of
            Inl e \<Rightarrow> Inl e
          | Inr uop \<Rightarrow>
              Inr (UnaryOperationNode \<lparr>start = start, end' = Parser_position p'\<rparr>
                     uop operand, p'))) p
      else parse_parent_expr self p)"

definition parse_parent_expr_body :: "methods \<Rightarrow> node parsing" where
  "parse_parent_expr_body self p =
     bind (accept ''LEFT_PARENT'') (\<lambda>parenthesised.
       if parenthesised then
         bind (parse_expression self) (\<lambda>e. bind (eat ''RIGHT_PARENT'') (\<lambda>_. return e))
       else parse_value) p"

definition parse_comma_list_body :: "methods \<Rightarrow> string \<Rightarrow> node list parsing" where
  "parse_comma_list_body self close_token p =
     (if is_next close_token p then return [] p
      else bind (parse_expression self) (\<lambda>e. parse_comma_list_loop self [e]) p)"

definition parse_comma_list_loop_body :: "methods \<Rightarrow> node list \<Rightarrow> node list parsing" where
  "parse_comma_list_loop_body self args p =
     bind (accept ''COMMA'') (\<lambda>more.
       if more then bind (parse_expression self) (\<lambda>e. parse_comma_list_loop self (args @ [e]))
       else return args) p"

text \<open>
  The methods with the depth of their calls bounded: with bound 0 every method ends in
  \<open>OutOfFuel\<close>, with bound \<open>Suc n\<close> it runs its body and the calls of the body have the
  bound \<open>n\<close>.
\<close>

primrec bounded :: "nat \<Rightarrow> methods" where
  "bounded 0 =
     \<lparr>parse_gen = (\<lambda>p. Inl OutOfFuel),
      parse_function = (\<lambda>p. Inl OutOfFuel),
      parse_codeblock = (\<lambda>force p. Inl OutOfFuel),
      parse_codeblock_gen = (\<lambda>p. Inl OutOfFuel),
      parse_statement = (\<lambda>p. Inl OutOfFuel),
      parse_declaration = (\<lambda>p. Inl OutOfFuel),
      parse_assignment = (\<lambda>p. Inl OutOfFuel),
      parse_expression = (\<lambda>p. Inl OutOfFuel),
      parse_expr_add = (\<lambda>p. Inl OutOfFuel),
      parse_expr_sub = (\<lambda>p. Inl OutOfFuel),
      parse_expr_mult = (\<lambda>p. Inl OutOfFuel),
      parse_expr_div = (\<lambda>p. Inl OutOfFuel),
      parse_expr_power = (\<lambda>p. Inl OutOfFuel),
      parse_function_call = (\<lambda>p. Inl OutOfFuel),
      parse_expr_unary = (\<lambda>p. Inl OutOfFuel),
      parse_parent_expr = (\<lambda>p. Inl OutOfFuel),
      parse_comma_list = (\<lambda>close_token p. Inl OutOfFuel),
      parse_comma_list_loop = (\<lambda>args p. Inl OutOfFuel)\<rparr>"
| "bounded (Suc n) =
     \<lparr>parse_gen = parse_gen_body (bounded n),
      parse_function = parse_function_body (bounded n),
      parse_codeblock = parse_codeblock_body (bounded n),
      parse_codeblock_gen = parse_codeblock_gen_body (bounded n),
      parse_statement = parse_statement_body (bounded n),
      parse_declaration = parse_declaration_body (bounded n),
      parse_assignment = parse_assignment_body (bounded n),
      parse_expression = parse_expression_body (bounded n),
      parse_expr_add = parse_expr_add_body (bounded n),
      parse_expr_sub = parse_expr_sub_body (bounded n),
      parse_expr_mult = parse_expr_mult_body (bounded n),
      parse_expr_div = parse_expr_div_body (bounded n),
      parse_expr_power = parse_expr_power_body (bounded n),
      parse_function_call = parse_function_call_body (bounded n),
      parse_expr_unary = parse_expr_unary_body (bounded n),
      parse_parent_expr = parse_parent_expr_body (bounded n),
      parse_comma_list = parse_comma_list_body (bounded n),
      parse_comma_list_loop = parse_comma_list_loop_body (bounded n)\<rparr>"

declare bounded.simps [simp del]

lemma bounded_0:
  "parse_gen (bounded 0) = (\<lambda>p. Inl OutOfFuel)"
  "parse_function (bounded 0) = (\<lambda>p. Inl OutOfFuel)"
  "parse_codeblock (bounded 0) = (\<lambda>force p. Inl OutOfFuel)"
  "parse_codeblock_gen (bounded 0) = (\<lambda>p. Inl OutOfFuel)"
  "parse_statement (bounded 0) = (\<lambda>p. Inl OutOfFuel)"
  "parse_declaration (bounded 0) = (\<lambda>p. Inl OutOfFuel)"
  "parse_assignment (bounded 0) = (\<lambda>p. Inl OutOfFuel)"
  "parse_expression (bounded 0) = (\<lambda>p. Inl OutOfFuel)"
  "parse_expr_add (bounded 0) = (\<lambda>p. Inl OutOfFuel)"
  "parse_expr_sub (bounded 0) = (\<lambda>p. Inl OutOfFuel)"
  "parse_expr_mult (bounded 0) = (\<lambda>p. Inl OutOfFuel)"
  "parse_expr_div (bounded 0) = (\<lambda>p. Inl OutOfFuel)"
  "parse_expr_power (bounded 0) = (\<lambda>p. Inl OutOfFuel)"
  "parse_function_call (bounded 0) = (\<lambda>p. Inl OutOfFuel)"
  "parse_expr_unary (bounded 0) = (\<lambda>p. Inl OutOfFuel)"
  "parse_parent_expr (bounded 0) = (\<lambda>p. Inl OutOfFuel)"
  "parse_comma_list (bounded 0) = (\<lambda>close_token p. Inl OutOfFuel)"
  "parse_comma_list_loop (bounded 0) = (\<lambda>args p. Inl OutOfFuel)"
  by (simp_all add: bounded.simps)

lemma bounded_Suc:
  "parse_gen (bounded (Suc n)) = parse_gen_body (bounded n)"
  "parse_function (bounded (Suc n)) = parse_function_body (bounded n)"
  "parse_codeblock (bounded (Suc n)) = parse_codeblock_body (bounded n)"
  "parse_codeblock_gen (bounded (Suc n)) = parse_codeblock_gen_body (bounded n)"
  "parse_statement (bounded (Suc n)) = parse_statement_body (bounded n)"
  "parse_declaration (bounded (Suc n)) = parse_declaration_body (bounded n)"
  "parse_assignment (bounded (Suc n)) = parse_assignment_body (bounded n)"
  "parse_expression (bounded (Suc n)) = parse_expression_body (bounded n)"
  "parse_expr_add (bounded (Suc n)) = parse_expr_add_body (bounded n)"
  "parse_expr_sub (bounded (Suc n)) = parse_expr_sub_body (bounded n)"
  "parse_expr_mult (bounded (Suc n)) = parse_expr_mult_body (bounded n)"
  "parse_expr_div (bounded (Suc n)) = parse_expr_div_body (bounded n)"
  "parse_expr_power (bounded (Suc n)) = parse_expr_power_body (bounded n)"
  "parse_function_call (bounded (Suc n)) = parse_function_call_body (bounded n)"
  "parse_expr_unary (bounded (Suc n)) = parse_expr_unary_body (bounded n)"
  "parse_parent_expr (bounded (Suc n)) = parse_parent_expr_body (bounded n)"
  "parse_comma_list (bounded (Suc n)) = parse_comma_list_body (bounded n)"
  "parse_comma_list_loop (bounded (Suc n)) = parse_comma_list_loop_body (bounded n)"
  by (simp_all add: bounded.simps)

text \<open>\<^verbatim>\<open>Parser.parse\<close>, and \<^verbatim>\<open>Parser(code).parse()\<close>, with the depth bound \<open>n\<close>.\<close>

definition parse :: "nat \<Rightarrow> node parsing" where
  "parse n p =
     (let start = Parser_position p in
      bind (eat ''_SOI'') (\<lambda>_.
      bind (parse_gen (bounded n)) (\<lambda>block.
      bind (eat ''_EOI'') (\<lambda>_ p'.
        Inr (CodeBlockNode \<lparr>start = start, end' = Parser_position p'\<rparr> block, p')))) p)"

definition parse_code :: "nat \<Rightarrow> string \<Rightarrow> error + node" where
  "parse_code n c = (case parse n (Parser_init c) of Inl e \<Rightarrow> Inl e | Inr (nd, p) \<Rightarrow> Inr nd)"

subsection \<open>Notions used to state the properties\<close>

text \<open>
  The tokens that successive calls of \<^verbatim>\<open>next(lexer)\<close> return, until the lexer raises
  \<^verbatim>\<open>StopIteration\<close> or a \<open>ParseError\<close>.
\<close>

lemma first_match_bounds:
  assumes "first_match TOKENS s = Some (k, n)"
  shows "0 < n \<and> n \<le> length s"
proof -
  have take_len: "length w \<le> length t" if "take (length w) t = w" for w t :: string
  proof -
    from that have "length (take (length w) t) = length w"
      by (rule arg_cong)
    then show ?thesis by (simp add: min_def split: if_splits)
  qed
  have lit_n: "0 < n \<and> n \<le> length s" if "lit w s = Some n" and "w \<noteq> []" for w
  proof -
    from that have "take (length w) s = w" and "n = length w"
      by (auto simp: lit_def split: if_splits)
    then have "length w \<le> length s"
      using take_len by simp
    with \<open>n = length w\<close> \<open>w \<noteq> []\<close> show ?thesis by simp
  qed
  have many1_n: "0 < m \<and> m \<le> length t" if "many1 p t = Some m" for p t m
    using that by (auto simp: many1_def length_takeWhile_le split: if_splits)
  have seq_lit_n: "0 < m \<and> m \<le> length t"
    if "seq (lit w) (many1 p) t = Some m" for w p t m
  proof -
    from that obtain i j where i: "lit w t = Some i" and j: "many1 p (drop i t) = Some j"
      and m: "m = i + j"
      by (auto simp: seq_def split: option.splits)
    from i have "take (length w) t = w" and "i = length w"
      by (auto simp: lit_def split: if_splits)
    then have "i \<le> length t"
      using take_len by simp
    moreover from many1_n [OF j] have "0 < j" and "j \<le> length t - i" by simp_all
    ultimately show ?thesis using m by simp
  qed
  have ident_n: "0 < n \<and> n \<le> length s" if "IDENT_pattern s = Some n"
  proof -
    from that obtain c cs where s: "s = c # cs" and "n = 1 + length (takeWhile ident_char cs)"
      by (auto simp: IDENT_pattern_def seq_def one_def many_def
          split: option.splits list.splits if_splits)
    then show ?thesis
      by (simp add: length_takeWhile_le)
  qed
  have number_n: "0 < n \<and> n \<le> length s" if "NUMBER_pattern s = Some n"
  proof -
    let ?dec = "seq (many1 digit) (opt (seq (lit ''.'') (many1 digit)))"
    from that consider "?dec s = Some n" | "seq (lit ''0x'') (many1 hex_digit) s = Some n"
      | "seq (lit ''0o'') (many1 oct_digit) s = Some n"
      by (auto simp: NUMBER_pattern_def alt_def split: option.splits)
    then show ?thesis
    proof cases
      case 1
      then obtain i j where i: "many1 digit s = Some i"
        and j: "opt (seq (lit ''.'') (many1 digit)) (drop i s) = Some j" and n: "n = i + j"
        by (auto simp: seq_def split: option.splits)
      from many1_n [OF i] have i': "0 < i" "i \<le> length s" by simp_all
      from j have "j = 0 \<or> seq (lit ''.'') (many1 digit) (drop i s) = Some j"
        by (auto simp: opt_def split: option.splits)
      then have "j \<le> length (drop i s)"
        using seq_lit_n [of "''.''" digit "drop i s" j] by auto
      with i' n show ?thesis by simp
    next
      case 2
      then show ?thesis by (rule seq_lit_n)
    next
      case 3
      then show ?thesis by (rule seq_lit_n)
    qed
  qed
  have first_match_in: "\<exists>v. (k, v) \<in> set ts \<and> v s = Some n"
    if "first_match ts s = Some (k, n)" for ts
    using that by (induction ts) (auto split: option.splits)
  from first_match_in [OF assms] obtain v where v: "(k, v) \<in> set TOKENS" "v s = Some n"
    by blast
  from v consider (lit) w where "w \<noteq> []" and "lit w s = Some n"
    | (ident) "IDENT_pattern s = Some n"
    | (number) "NUMBER_pattern s = Some n"
    | (blank) "many1 blank s = Some n"
    by (auto simp: TOKENS_def)
  then show ?thesis
  proof cases
    case lit
    then show ?thesis using lit_n by blast
  next
    case ident
    then show ?thesis by (rule ident_n)
  next
    case number
    then show ?thesis by (rule number_n)
  next
    case blank
    then show ?thesis by (rule many1_n)
  qed
qed

lemma scan_shrinks:
  "scan lx = Inr (Some t, lx') \<Longrightarrow> length (rest lx') < length (rest lx)"
proof (induction lx rule: scan.induct)
  case (1 lx)
  show ?case
  proof (cases "first_match TOKENS (rest lx)")
    case None
    with "1.prems" show ?thesis
      by (simp add: scan.simps [of lx] split: if_splits)
  next
    case (Some kn)
    obtain k n where kn: "kn = (k, n)" by (cases kn)
    from Some kn have b: "0 < n \<and> n \<le> length (rest lx)"
      using first_match_bounds by simp
    then have shrink: "length (rest (advance n lx)) < length (rest lx)"
      by (simp add: advance_def) arith
    show ?thesis
    proof (cases "k = ''_IGNORE''")
      case True
      with "1.prems" Some kn have "scan (advance n lx) = Inr (Some t, lx')"
        by (simp add: scan.simps [of lx])
      with "1.IH" [OF Some kn [symmetric] True]
      have "length (rest lx') < length (rest (advance n lx))" by simp
      with shrink show ?thesis by simp
    next
      case False
      with "1.prems" Some kn have "lx' = advance n lx"
        by (simp add: scan.simps [of lx])
      with shrink show ?thesis by simp
    qed
  qed
qed

function lexer_tokens :: "Lexer \<Rightarrow> Token list" where
  "lexer_tokens lx =
     (case lexer_next lx of
        Inl e \<Rightarrow> []
      | Inr (None, lx') \<Rightarrow> []
      | Inr (Some t, lx') \<Rightarrow> t # lexer_tokens lx')"
  by pat_completeness auto
termination
proof (relation "measure (\<lambda>lx. length (rest lx))")
  show "wf (measure (\<lambda>lx. length (rest lx)))" by simp
next
  fix lx :: Lexer and r x y t
  assume "lexer_next lx = Inr r" and "(x, y) = r" and "x = Some t"
  then have "scan lx = Inr (Some t, y)"
    by (auto simp: lexer_next_def split: if_splits)
  then show "(y, lx) \<in> measure (\<lambda>lx. length (rest lx))"
    using scan_shrinks by simp
qed

declare lexer_tokens.simps [simp del]

text \<open>The number of decimal digits of a natural number.\<close>

fun digit_count :: "nat \<Rightarrow> nat" where
  "digit_count n = (if n < 10 then 1 else 1 + digit_count (n div 10))"

declare digit_count.simps [simp del]

text \<open>All the nodes of a tree in post-order: the subtrees of the children, then the node.\<close>

fun postorder :: "node \<Rightarrow> node list" where
  "postorder (DeclarationNode sp ident) = [DeclarationNode sp ident]"
| "postorder (AssignmentNode sp ident expr) =
     postorder expr @ [AssignmentNode sp ident expr]"
| "postorder (ValueNode sp v) = [ValueNode sp v]"
| "postorder (BinaryOperationNode sp left op right) =
     postorder left @ postorder right @ [BinaryOperationNode sp left op right]"
| "postorder (UnaryOperationNode sp op operand) =
     postorder operand @ [UnaryOperationNode sp op operand]"
| "postorder (ReturnStatementNode sp expr) = postorder expr @ [ReturnStatementNode sp expr]"
| "postorder (CodeBlockNode sp block) =
     concat (map postorder block) @ [CodeBlockNode sp block]"
| "postorder (WhileNode sp condition block) =
     postorder condition @ postorder block @ [WhileNode sp condition block]"
| "postorder (IdentNode sp ident) = [IdentNode sp ident]"
| "postorder (FunctionNode sp name args block) =
     concat (map postorder args) @ postorder block @ [FunctionNode sp name args block]"
| "postorder (ExternFunctionNode sp name args) =
     concat (map postorder args) @ [ExternFunctionNode sp name args]"
| "postorder (FunctionCallNode sp ident args) =
     concat (map postorder args) @ [FunctionCallNode sp ident args]"

text \<open>
  The invariant of spans: \<open>start \<le> end\<close> at a node, and the span of every child within
  the span of its parent, at every node of the tree.
\<close>

definition span_ordered :: "node \<Rightarrow> bool" where
  "span_ordered n = LineCol_le (start (span n)) (end' (span n))"

definition span_within :: "node \<Rightarrow> node \<Rightarrow> bool" where
  "span_within child parent =
     (LineCol_le (start (span parent)) (start (span child)) \<and>
      LineCol_le (end' (span child)) (end' (span parent)))"

definition spans_ok :: "node \<Rightarrow> bool" where
  "spans_ok root =
     list_all (\<lambda>n. span_ordered n \<and> list_all (\<lambda>c. span_within c n) (children n))
       (postorder root)"

text \<open>Positions and spans, written shortly.\<close>

abbreviation at :: "nat \<Rightarrow> nat \<Rightarrow> LineCol" where
  "at l c \<equiv> \<lparr>line = l, col = c\<rparr>"

abbreviation from_to :: "LineCol \<Rightarrow> LineCol \<Rightarrow> Span" where
  "from_to a b \<equiv> \<lparr>start = a, end' = b\<rparr>"

text \<open>The attribute \<^verbatim>\<open>position\<close> of the \<open>ParseError\<close> a run ends in, if it ends in one.\<close>

fun error_position :: "error + 'a \<Rightarrow> LineCol option" where
  "error_position (Inl (ParseError txt pos)) = Some pos"
| "error_position (Inl (ValueError txt)) = None"
| "error_position (Inl OutOfFuel) = None"
| "error_position (Inr x) = None"

section \<open>Properties\<close>

subsection \<open>Evaluation rules\<close>

lemmas pattern_defs = TOKENS_def lit_def many_def many1_def one_def seq_def alt_def opt_def
  in_range_def ident_start_def ident_char_def digit_def hex_digit_def oct_digit_def blank_def
  NUMBER_pattern_def IDENT_pattern_def nl_def tab_def

lemmas lexer_defs = scan.simps lexer_next_def advance_def raise_ParseError_def cur_line_def
  linecol_def get_line_def linecol_from_position_def Lexer_init_def ParseError_init_def
  ParseError_text_def

lemma bounded_numeral:
  "parse_gen (bounded (numeral k)) = parse_gen_body (bounded (pred_numeral k))"
  "parse_function (bounded (numeral k)) = parse_function_body (bounded (pred_numeral k))"
  "parse_codeblock (bounded (numeral k)) = parse_codeblock_body (bounded (pred_numeral k))"
  "parse_codeblock_gen (bounded (numeral k)) = parse_codeblock_gen_body (bounded (pred_numeral k))"
  "parse_statement (bounded (numeral k)) = parse_statement_body (bounded (pred_numeral k))"
  "parse_declaration (bounded (numeral k)) = parse_declaration_body (bounded (pred_numeral k))"
  "parse_assignment (bounded (numeral k)) = parse_assignment_body (bounded (pred_numeral k))"
  "parse_expression (bounded (numeral k)) = parse_expression_body (bounded (pred_numeral k))"
  "parse_expr_add (bounded (numeral k)) = parse_expr_add_body (bounded (pred_numeral k))"
  "parse_expr_sub (bounded (numeral k)) = parse_expr_sub_body (bounded (pred_numeral k))"
  "parse_expr_mult (bounded (numeral k)) = parse_expr_mult_body (bounded (pred_numeral k))"
  "parse_expr_div (bounded (numeral k)) = parse_expr_div_body (bounded (pred_numeral k))"
  "parse_expr_power (bounded (numeral k)) = parse_expr_power_body (bounded (pred_numeral k))"
  "parse_function_call (bounded (numeral k)) = parse_function_call_body (bounded (pred_numeral k))"
  "parse_expr_unary (bounded (numeral k)) = parse_expr_unary_body (bounded (pred_numeral k))"
  "parse_parent_expr (bounded (numeral k)) = parse_parent_expr_body (bounded (pred_numeral k))"
  "parse_comma_list (bounded (numeral k)) = parse_comma_list_body (bounded (pred_numeral k))"
  "parse_comma_list_loop (bounded (numeral k)) = parse_comma_list_loop_body (bounded (pred_numeral k))"
  by (simp_all add: numeral_eq_Suc bounded_Suc)

lemmas body_defs = parse_gen_body_def parse_function_body_def parse_codeblock_body_def
  parse_codeblock_gen_body_def parse_statement_body_def parse_declaration_body_def
  parse_assignment_body_def parse_expression_body_def parse_expr_add_body_def
  parse_expr_sub_body_def parse_expr_mult_body_def parse_expr_div_body_def
  parse_expr_power_body_def parse_function_call_body_def parse_expr_unary_body_def
  parse_parent_expr_body_def parse_comma_list_body_def parse_comma_list_loop_body_def

lemmas parser_defs = bounded_numeral bounded_Suc bounded_0 body_defs parse_def parse_code_def
  Parser_init_def Parser_position_def peek_def bind_def return_def raise_def eat_def
  is_next_def accept_def parse_value_def ValueNode_init_def decimal_shape_def
  UnaryOperation_of_def

lemma replicate_numeral: "replicate (numeral k) x = x # replicate (pred_numeral k) x"
  by (simp add: numeral_eq_Suc)

subsection \<open>Tokens depend on the remaining text only\<close>

lemma scan_rest:
  "rest a = rest b \<Longrightarrow>
     (case scan a of
        Inl e \<Rightarrow> (\<exists>e'. scan b = Inl e')
      | Inr (t, a') \<Rightarrow> (\<exists>b'. scan b = Inr (t, b') \<and> rest a' = rest b'))"
proof (induction a arbitrary: b rule: scan.induct)
  case (1 a)
  show ?case
  proof (cases "first_match TOKENS (rest a)")
    case None
    then have fb: "first_match TOKENS (rest b) = None"
      using "1.prems" by simp
    have sa: "scan a = (if length (rest a) = 0 then Inr (None, a)
        else Inl (raise_ParseError ''Cannot lex input code'' a))"
      by (subst scan.simps) (simp only: None option.case)
    have sb: "scan b = (if length (rest b) = 0 then Inr (None, b)
        else Inl (raise_ParseError ''Cannot lex input code'' b))"
      by (subst scan.simps) (simp only: fb option.case)
    show ?thesis
      unfolding sa sb using "1.prems" by (cases "rest b = []") simp_all
  next
    case (Some kn)
    obtain k n where kn: "kn = (k, n)" by (cases kn)
    from Some kn have fa: "first_match TOKENS (rest a) = Some (k, n)" by simp
    then have fb: "first_match TOKENS (rest b) = Some (k, n)"
      using "1.prems" by simp
    have sa: "scan a = (if k = ''_IGNORE'' then scan (advance n a)
        else Inr (Some (k, take n (rest a)), advance n a))"
      by (subst scan.simps) (simp only: fa option.case prod.case)
    have sb: "scan b = (if k = ''_IGNORE'' then scan (advance n b)
        else Inr (Some (k, take n (rest b)), advance n b))"
      by (subst scan.simps) (simp only: fb option.case prod.case)
    have adv: "rest (advance n a) = rest (advance n b)"
      using "1.prems" by (simp add: advance_def)
    show ?thesis
    proof (cases "k = ''_IGNORE''")
      case True
      from sa sb True have sa': "scan a = scan (advance n a)"
        and sb': "scan b = scan (advance n b)" by simp_all
      from "1.IH" [OF Some kn [symmetric] True adv] show ?thesis
        by (simp only: sa' sb')
    next
      case False
      then show ?thesis
        using adv "1.prems" by (simp add: sa sb)
    qed
  qed
qed

lemma lexer_tokens_rest: "rest a = rest b \<Longrightarrow> lexer_tokens a = lexer_tokens b"
proof (induction a arbitrary: b rule: lexer_tokens.induct)
  case (1 a)
  show ?case
  proof (cases "length (rest a) = 0")
    case True
    with "1.prems" show ?thesis
      by (simp add: lexer_tokens.simps [of a] lexer_tokens.simps [of b] lexer_next_def)
  next
    case False
    then have na: "lexer_next a = scan a" and nb: "lexer_next b = scan b"
      using "1.prems" by (simp_all add: lexer_next_def)
    show ?thesis
    proof (cases "scan a")
      case (Inl e)
      with scan_rest [OF "1.prems"] obtain e' where "scan b = Inl e'" by auto
      with Inl na nb show ?thesis
        by (simp add: lexer_tokens.simps [of a] lexer_tokens.simps [of b])
    next
      case (Inr r)
      obtain t a' where r: "r = (t, a')" by (cases r)
      with Inr scan_rest [OF "1.prems"] obtain b' where b': "scan b = Inr (t, b')"
        and rest': "rest a' = rest b'" by auto
      show ?thesis
      proof (cases t)
        case None
        with Inr r b' na nb show ?thesis
          by (simp add: lexer_tokens.simps [of a] lexer_tokens.simps [of b])
      next
        case (Some tok)
        from "1.IH" [of r t a' tok b'] Inr r na Some rest'
        have "lexer_tokens a' = lexer_tokens b'" by simp
        with Inr r b' na nb Some show ?thesis
          by (simp add: lexer_tokens.simps [of a] lexer_tokens.simps [of b])
      qed
    qed
  qed
qed

text \<open>
  When the first rule that matches the text is not \<^verbatim>\<open>_IGNORE\<close>, the first token is the
  one of that rule and the tokens that follow are those of the text after the match.
\<close>

lemma lexer_tokens_first:
  assumes "first_match TOKENS s = Some (k, n)" and "k \<noteq> ''_IGNORE''"
  shows "lexer_tokens (Lexer_init s) = (k, take n s) # lexer_tokens (Lexer_init (drop n s))"
proof -
  from assms(1) have "s \<noteq> []"
    using first_match_bounds by fastforce
  then have "lexer_next (Lexer_init s) = scan (Lexer_init s)"
    by (simp add: lexer_next_def Lexer_init_def)
  moreover have "first_match TOKENS (rest (Lexer_init s)) = Some (k, n)"
    using assms(1) by (simp add: Lexer_init_def)
  then have "scan (Lexer_init s) =
      Inr (Some (k, take n (rest (Lexer_init s))), advance n (Lexer_init s))"
    using assms(2) by (subst scan.simps) simp
  ultimately have "lexer_next (Lexer_init s) =
      Inr (Some (k, take n s), advance n (Lexer_init s))"
    by (simp add: Lexer_init_def)
  moreover have "lexer_tokens (advance n (Lexer_init s)) = lexer_tokens (Lexer_init (drop n s))"
    by (rule lexer_tokens_rest) (simp add: advance_def Lexer_init_def)
  ultimately show ?thesis
    by (simp add: lexer_tokens.simps [of "Lexer_init s"])
qed

subsection \<open>Rendering of diagnostics\<close>

lemma length_str_nat: "length (str_nat n) = digit_count n"
proof (induction n rule: str_nat.induct)
  case (1 n)
  show ?case
  proof (cases "n < 10")
    case True
    then show ?thesis by (simp add: str_nat.simps [of n] digit_count.simps [of n])
  next
    case False
    with "1.IH" show ?thesis by (simp add: str_nat.simps [of n] digit_count.simps [of n])
  qed
qed

lemma digit_char_not_nl: "d < 10 \<Longrightarrow> digit_char d \<noteq> nl"
proof -
  assume "d < 10"
  then have "d \<in> {0, 1, 2, 3, 4, 5, 6, 7, 8, 9}" by auto
  then show ?thesis by (auto simp: digit_char_def nl_def)
qed

lemma str_nat_no_nl: "nl \<notin> set (str_nat n)"
proof (induction n rule: str_nat.induct)
  case (1 n)
  show ?case
  proof (cases "n < 10")
    case True
    then show ?thesis using digit_char_not_nl [of n] by (simp add: str_nat.simps [of n])
  next
    case False
    with "1.IH" show ?thesis
      using digit_char_not_nl [of "n mod 10"] by (simp add: str_nat.simps [of n])
  qed
qed

lemma split_nl_no_nl: "nl \<notin> set s \<Longrightarrow> split_nl s = [s]"
  by (induction s) auto

lemma split_nl_append: "nl \<notin> set a \<Longrightarrow> split_nl (a @ nl # b) = a # split_nl b"
proof (induction a)
  case Nil
  then show ?case by simp
next
  case (Cons c a)
  then show ?case by (cases "split_nl b") auto
qed

text \<open>
  Claim C7. For an error with message \<open>m\<close>, source line \<open>s\<close>, line number \<open>N\<close> and column
  \<open>c\<close>, the rendered text is \<open>m\<close>, a line feed, the decimal digits of \<open>N\<close> followed by
  \<^verbatim>\<open>"| "\<close> and \<open>s\<close>, a line feed, and \<open>c + digit_count N\<close> spaces followed by one
  \<^verbatim>\<open>"^"\<close>. When \<open>m\<close> and \<open>s\<close> hold no line feed (the messages of the front end and the
  lines of \<^verbatim>\<open>split("\n")\<close> hold none), these are exactly three lines.
\<close>

theorem ParseError_text_format:
  "ParseError_text m s \<lparr>line = N, col = c\<rparr> =
     m @ [nl] @ str_nat N @ ''| '' @ s @ [nl] @ replicate (c + digit_count N) CHR '' '' @ ''^''
   \<and> (nl \<notin> set m \<and> nl \<notin> set s \<longrightarrow>
        split_nl (ParseError_text m s \<lparr>line = N, col = c\<rparr>) =
          [m, str_nat N @ ''| '' @ s, replicate (c + digit_count N) CHR '' '' @ ''^''])"
proof (intro conjI impI)
  show text_eq: "ParseError_text m s \<lparr>line = N, col = c\<rparr> =
     m @ [nl] @ str_nat N @ ''| '' @ s @ [nl] @ replicate (c + digit_count N) CHR '' '' @ ''^''"
    by (simp add: ParseError_text_def Let_def length_str_nat)
  assume no_nl: "nl \<notin> set m \<and> nl \<notin> set s"
  have line2: "nl \<notin> set (str_nat N @ ''| '' @ s)"
    using no_nl str_nat_no_nl [of N] by (simp add: nl_def)
  have line3: "nl \<notin> set (replicate (c + digit_count N) CHR '' '' @ ''^'')"
    by (auto simp: nl_def)
  have "split_nl (ParseError_text m s \<lparr>line = N, col = c\<rparr>) =
      split_nl (m @ nl # ((str_nat N @ ''| '' @ s)
        @ nl # (replicate (c + digit_count N) CHR '' '' @ ''^'')))"
    by (simp add: text_eq)
  also have "\<dots> = m # split_nl ((str_nat N @ ''| '' @ s)
        @ nl # (replicate (c + digit_count N) CHR '' '' @ ''^''))"
    by (rule split_nl_append) (use no_nl in simp)
  also have "\<dots> = m # (str_nat N @ ''| '' @ s)
        # split_nl (replicate (c + digit_count N) CHR '' '' @ ''^'')"
    by (simp only: split_nl_append [OF line2])
  also have "\<dots> = [m, str_nat N @ ''| '' @ s, replicate (c + digit_count N) CHR '' '' @ ''^'']"
    by (simp only: split_nl_no_nl [OF line3])
  finally show "split_nl (ParseError_text m s \<lparr>line = N, col = c\<rparr>) =
          [m, str_nat N @ ''| '' @ s, replicate (c + digit_count N) CHR '' '' @ ''^'']" .
qed

theorem ParseError_text_format_witness:
  "nl \<notin> set ''Syntax error'' \<and> nl \<notin> set ''1 = 2'' \<and>
   split_nl (ParseError_text ''Syntax error'' ''1 = 2'' \<lparr>line = 12, col = 6\<rparr>) =
     [''Syntax error'', ''12| 1 = 2'', replicate 8 CHR '' '' @ ''^'']"
proof -
  have h: "nl \<notin> set ''Syntax error'' \<and> nl \<notin> set ''1 = 2''"
    by (simp add: nl_def)
  with ParseError_text_format [of "''Syntax error''" "''1 = 2''" 12 6]
  have "split_nl (ParseError_text ''Syntax error'' ''1 = 2'' \<lparr>line = 12, col = 6\<rparr>) =
     [''Syntax error'', str_nat 12 @ ''| '' @ ''1 = 2'',
      replicate (6 + digit_count 12) CHR '' '' @ ''^'']"
    by blast
  moreover have "str_nat 12 = ''12''"
    by (simp add: str_nat.simps digit_char_def)
  moreover have "digit_count 12 = 2"
    by (simp add: digit_count.simps)
  ultimately show ?thesis using h by simp
qed

subsection \<open>Token kinds the tokenizer can emit\<close>

lemma lit_two_gives_one:
  "lit [c, d] s = Some n \<Longrightarrow> lit [c] s \<noteq> None"
  by (cases s) (auto simp: lit_def split: if_splits)

lemma first_match_kind:
  assumes "first_match TOKENS s = Some (k, n)"
  shows "k \<noteq> ''LESSEQUAL'' \<and> k \<noteq> ''GREATEREQUAL''"
proof -
  have le: "lit ''<'' s \<noteq> None" if "lit ''<='' s = Some m" for m
    using that by (rule lit_two_gives_one)
  have ge: "lit ''>'' s \<noteq> None" if "lit ''>='' s = Some m" for m
    using that by (rule lit_two_gives_one)
  from assms show ?thesis
    unfolding TOKENS_def first_match.simps
    by (auto split: option.splits dest: le ge)
qed

lemma scan_kind:
  "scan lx = Inr (Some t, lx') \<Longrightarrow> fst t \<noteq> ''LESSEQUAL'' \<and> fst t \<noteq> ''GREATEREQUAL''"
proof (induction lx rule: scan.induct)
  case (1 lx)
  show ?case
  proof (cases "first_match TOKENS (rest lx)")
    case None
    with "1.prems" show ?thesis
      by (simp add: scan.simps [of lx] split: if_splits)
  next
    case (Some kn)
    obtain k n where kn: "kn = (k, n)" by (cases kn)
    from Some kn have fm: "first_match TOKENS (rest lx) = Some (k, n)" by simp
    have sc: "scan lx = (if k = ''_IGNORE'' then scan (advance n lx)
        else Inr (Some (k, take n (rest lx)), advance n lx))"
      by (subst scan.simps) (simp only: fm option.case prod.case)
    show ?thesis
    proof (cases "k = ''_IGNORE''")
      case True
      with sc "1.prems" have "scan (advance n lx) = Inr (Some t, lx')" by simp
      with "1.IH" [OF Some kn [symmetric] True] show ?thesis by simp
    next
      case False
      with sc "1.prems" have "fst t = k" by auto
      with first_match_kind [OF fm] show ?thesis by simp
    qed
  qed
qed

lemma lexer_tokens_kind:
  "t \<in> set (lexer_tokens lx) \<Longrightarrow> fst t \<noteq> ''LESSEQUAL'' \<and> fst t \<noteq> ''GREATEREQUAL''"
proof (induction lx rule: lexer_tokens.induct)
  case (1 lx)
  show ?case
  proof (cases "lexer_next lx")
    case (Inl e)
    with "1.prems" show ?thesis
      by (simp add: lexer_tokens.simps [of lx])
  next
    case (Inr r)
    obtain x lx' where r: "r = (x, lx')" by (cases r)
    show ?thesis
    proof (cases x)
      case None
      with Inr r "1.prems" show ?thesis
        by (simp add: lexer_tokens.simps [of lx])
    next
      case (Some tok)
      with Inr r "1.prems" have "t = tok \<or> t \<in> set (lexer_tokens lx')"
        by (simp add: lexer_tokens.simps [of lx])
      then show ?thesis
      proof
        assume "t = tok"
        moreover from Inr r Some have "scan lx = Inr (Some tok, lx')"
          by (auto simp: lexer_next_def split: if_splits)
        ultimately show ?thesis using scan_kind by blast
      next
        assume "t \<in> set (lexer_tokens lx')"
        with "1.IH" [OF Inr r [symmetric] Some] show ?thesis .
      qed
    qed
  qed
qed

text \<open>
  Claim C10. The tokenizer never emits a token of kind \<^verbatim>\<open>LESSEQUAL\<close> or
  \<^verbatim>\<open>GREATEREQUAL\<close>, from any state of the lexer: a text that starts with \<^verbatim>\<open><=\<close> gives
  \<^verbatim>\<open>LESSTHAN\<close> then \<^verbatim>\<open>EQUALS\<close>, a text that starts with \<^verbatim>\<open>>=\<close> gives \<^verbatim>\<open>GREATERTHAN\<close> then
  \<^verbatim>\<open>EQUALS\<close>, and the tokens of the text after it follow.
\<close>

theorem never_LESSEQUAL_GREATEREQUAL:
  "(\<forall>t \<in> set (lexer_tokens lx). fst t \<noteq> ''LESSEQUAL'' \<and> fst t \<noteq> ''GREATEREQUAL'')
   \<and> lexer_tokens (Lexer_init (''<='' @ s)) =
       (''LESSTHAN'', ''<'') # (''EQUALS'', ''='') # lexer_tokens (Lexer_init s)
   \<and> lexer_tokens (Lexer_init (''>='' @ s)) =
       (''GREATERTHAN'', ''>'') # (''EQUALS'', ''='') # lexer_tokens (Lexer_init s)"
proof (intro conjI ballI)
  fix t assume "t \<in> set (lexer_tokens lx)"
  then show "fst t \<noteq> ''LESSEQUAL''" and "fst t \<noteq> ''GREATEREQUAL''"
    using lexer_tokens_kind by blast+
next
  have eq: "lexer_tokens (Lexer_init (''='' @ s)) = (''EQUALS'', ''='') # lexer_tokens (Lexer_init s)"
    using lexer_tokens_first [of "''='' @ s" "''EQUALS''" 1] by (simp add: pattern_defs)
  show "lexer_tokens (Lexer_init (''<='' @ s)) =
       (''LESSTHAN'', ''<'') # (''EQUALS'', ''='') # lexer_tokens (Lexer_init s)"
    using lexer_tokens_first [of "''<='' @ s" "''LESSTHAN''" 1] eq by (simp add: pattern_defs)
  show "lexer_tokens (Lexer_init (''>='' @ s)) =
       (''GREATERTHAN'', ''>'') # (''EQUALS'', ''='') # lexer_tokens (Lexer_init s)"
    using lexer_tokens_first [of "''>='' @ s" "''GREATERTHAN''" 1] eq by (simp add: pattern_defs)
qed

theorem never_LESSEQUAL_GREATEREQUAL_witness:
  "lexer_tokens (Lexer_init ''a<=b'') =
     [(''IDENT'', ''a''), (''LESSTHAN'', ''<''), (''EQUALS'', ''=''), (''IDENT'', ''b'')]
   \<and> (''LESSTHAN'', ''<'') \<in> set (lexer_tokens (Lexer_init ''a<=b''))
   \<and> fst (''LESSTHAN'', ''<'') \<noteq> ''LESSEQUAL''
   \<and> fst (''LESSTHAN'', ''<'') \<noteq> ''GREATEREQUAL''"
proof -
  have b: "lexer_tokens (Lexer_init ''b'') = [(''IDENT'', ''b'')]"
    by (simp add: lexer_tokens.simps lexer_defs pattern_defs)
  have "lexer_tokens (Lexer_init ''a<=b'') = (''IDENT'', ''a'') # lexer_tokens (Lexer_init ''<=b'')"
    using lexer_tokens_first [of "''a<=b''" "''IDENT''" 1] by (simp add: pattern_defs)
  moreover have "lexer_tokens (Lexer_init ''<=b'') =
      (''LESSTHAN'', ''<'') # (''EQUALS'', ''='') # lexer_tokens (Lexer_init ''b'')"
    using never_LESSEQUAL_GREATEREQUAL [of "Lexer_init ''a<=b''" "''b''"] by simp
  ultimately show ?thesis
    using b never_LESSEQUAL_GREATEREQUAL [of "Lexer_init ''a<=b''" "''b''"] by simp
qed

subsection \<open>Keywords at the start of an identifier\<close>

text \<open>
  Claim C4. A text that starts with the letters of a keyword gives the token of that
  keyword first, whatever follows the letters, and then the tokens of the rest of the
  text on its own: \<^verbatim>\<open>variable\<close> is \<^verbatim>\<open>KW_VAR\<close> \<^verbatim>\<open>var\<close> followed by \<^verbatim>\<open>IDENT\<close> \<^verbatim>\<open>iable\<close>. The rule
  of \<^verbatim>\<open>not\<close> has the kind \<^verbatim>\<open>UNOP\<close>.
\<close>

theorem keyword_prefix_tokens:
  "lexer_tokens (Lexer_init (''var'' @ s)) = (''KW_VAR'', ''var'') # lexer_tokens (Lexer_init s)
   \<and> lexer_tokens (Lexer_init (''fun'' @ s)) = (''KW_FUN'', ''fun'') # lexer_tokens (Lexer_init s)
   \<and> lexer_tokens (Lexer_init (''while'' @ s)) =
       (''KW_WHILE'', ''while'') # lexer_tokens (Lexer_init s)
   \<and> lexer_tokens (Lexer_init (''return'' @ s)) =
       (''KW_RETURN'', ''return'') # lexer_tokens (Lexer_init s)
   \<and> lexer_tokens (Lexer_init (''extern'' @ s)) =
       (''KW_EXTERN'', ''extern'') # lexer_tokens (Lexer_init s)
   \<and> lexer_tokens (Lexer_init (''not'' @ s)) = (''UNOP'', ''not'') # lexer_tokens (Lexer_init s)
   \<and> lexer_tokens (Lexer_init ''variable'') = [(''KW_VAR'', ''var''), (''IDENT'', ''iable'')]"
proof (intro conjI)
  show var: "lexer_tokens (Lexer_init (''var'' @ s)) =
      (''KW_VAR'', ''var'') # lexer_tokens (Lexer_init s)" for s
    using lexer_tokens_first [of "''var'' @ s" "''KW_VAR''" 3] by (simp add: pattern_defs)
  show "lexer_tokens (Lexer_init (''fun'' @ s)) =
      (''KW_FUN'', ''fun'') # lexer_tokens (Lexer_init s)"
    using lexer_tokens_first [of "''fun'' @ s" "''KW_FUN''" 3] by (simp add: pattern_defs)
  show "lexer_tokens (Lexer_init (''while'' @ s)) =
      (''KW_WHILE'', ''while'') # lexer_tokens (Lexer_init s)"
    using lexer_tokens_first [of "''while'' @ s" "''KW_WHILE''" 5] by (simp add: pattern_defs)
  show "lexer_tokens (Lexer_init (''return'' @ s)) =
      (''KW_RETURN'', ''return'') # lexer_tokens (Lexer_init s)"
    using lexer_tokens_first [of "''return'' @ s" "''KW_RETURN''" 6] by (simp add: pattern_defs)
  show "lexer_tokens (Lexer_init (''extern'' @ s)) =
      (''KW_EXTERN'', ''extern'') # lexer_tokens (Lexer_init s)"
    using lexer_tokens_first [of "''extern'' @ s" "''KW_EXTERN''" 6] by (simp add: pattern_defs)
  show "lexer_tokens (Lexer_init (''not'' @ s)) =
      (''UNOP'', ''not'') # lexer_tokens (Lexer_init s)"
    using lexer_tokens_first [of "''not'' @ s" "''UNOP''" 3] by (simp add: pattern_defs)
  have "lexer_tokens (Lexer_init ''iable'') = [(''IDENT'', ''iable'')]"
    by (simp add: lexer_tokens.simps lexer_defs pattern_defs)
  with var [of "''iable''"]
  show "lexer_tokens (Lexer_init ''variable'') = [(''KW_VAR'', ''var''), (''IDENT'', ''iable'')]"
    by simp
qed

subsection \<open>Hexadecimal and octal literals\<close>

text \<open>
  Claim C3 does not hold of the code. In the pattern of \<^verbatim>\<open>NUMBER\<close> the alternative
  \<^verbatim>\<open>[0-9]+(\.[0-9]+)?\<close> comes first and matches the leading \<^verbatim>\<open>0\<close> of \<^verbatim>\<open>0x...\<close> and
  \<^verbatim>\<open>0o...\<close>, so the alternatives written for these shapes are never tried: the tokenizer
  gives \<^verbatim>\<open>NUMBER\<close> \<^verbatim>\<open>0\<close> and goes on with the text from the letter \<^verbatim>\<open>x\<close> or \<^verbatim>\<open>o\<close>.
\<close>

theorem hex_octal_literal_tokens:
  "lexer_tokens (Lexer_init (''0x'' @ s)) =
     (''NUMBER'', ''0'') # lexer_tokens (Lexer_init (''x'' @ s))
   \<and> lexer_tokens (Lexer_init (''0o'' @ s)) =
     (''NUMBER'', ''0'') # lexer_tokens (Lexer_init (''o'' @ s))
   \<and> lexer_tokens (Lexer_init ''0x1A'') = [(''NUMBER'', ''0''), (''IDENT'', ''x1A'')]
   \<and> lexer_tokens (Lexer_init ''0o17'') = [(''NUMBER'', ''0''), (''IDENT'', ''o17'')]"
proof (intro conjI)
  show hex: "lexer_tokens (Lexer_init (''0x'' @ s)) =
     (''NUMBER'', ''0'') # lexer_tokens (Lexer_init (''x'' @ s))" for s
    using lexer_tokens_first [of "''0x'' @ s" "''NUMBER''" 1] by (simp add: pattern_defs)
  show oct: "lexer_tokens (Lexer_init (''0o'' @ s)) =
     (''NUMBER'', ''0'') # lexer_tokens (Lexer_init (''o'' @ s))" for s
    using lexer_tokens_first [of "''0o'' @ s" "''NUMBER''" 1] by (simp add: pattern_defs)
  have "lexer_tokens (Lexer_init ''x1A'') = [(''IDENT'', ''x1A'')]"
    by (simp add: lexer_tokens.simps lexer_defs pattern_defs)
  with hex [of "''1A''"]
  show "lexer_tokens (Lexer_init ''0x1A'') = [(''NUMBER'', ''0''), (''IDENT'', ''x1A'')]"
    by simp
  have "lexer_tokens (Lexer_init ''o17'') = [(''IDENT'', ''o17'')]"
    by (simp add: lexer_tokens.simps lexer_defs pattern_defs)
  with oct [of "''17''"]
  show "lexer_tokens (Lexer_init ''0o17'') = [(''NUMBER'', ''0''), (''IDENT'', ''o17'')]"
    by simp
qed

subsection \<open>Parsing of the test programs\<close>

text \<open>
  Claim C2. \<^verbatim>\<open>1 - 2 - 3\<close> parses, within the depth bound 40, to the root block of one block
  of one statement, which is \<open>BinaryOp (Value 1) SUB (BinaryOp (Value 2) SUB (Value 3))\<close>:
  the second subtraction is the right operand of the first. Spans are written in full.
\<close>

theorem parse_1_minus_2_minus_3:
  "parse_code 40 ''1 - 2 - 3'' =
     Inr (CodeBlockNode (from_to (at 1 1) (at 1 10))
       [CodeBlockNode (from_to (at 1 2) (at 1 10))
         [BinaryOperationNode (from_to (at 1 2) (at 1 10))
            (ValueNode (from_to (at 1 2) (at 1 4)) ''1'')
            SUB
            (BinaryOperationNode (from_to (at 1 6) (at 1 10))
               (ValueNode (from_to (at 1 6) (at 1 8)) ''2'')
               SUB
               (ValueNode (from_to (at 1 10) (at 1 10)) ''3''))]])"
  by (simp add: parser_defs lexer_defs pattern_defs)

text \<open>
  Claim C5, as the code has it. \<^verbatim>\<open>1 = 2\<close> raises the \<open>ParseError\<close> with the message
  \<^verbatim>\<open>Syntax error\<close> and the position line 1, column 6. The parser has read the token after
  \<^verbatim>\<open>=\<close> when it checks the target, and the position of an error is the one the lexer has
  reached: offset 5, after the \<^verbatim>\<open>2\<close>.
\<close>

theorem assignment_target_error:
  "parse_code 40 ''1 = 2'' = Inl (ParseError_init ''Syntax error'' ''1 = 2'' (at 1 6))
   \<and> at 1 6 = linecol_from_position ''1 = 2'' 5"
  by (simp add: parser_defs lexer_defs pattern_defs Let_def str_nat.simps digit_char_def
      replicate_numeral)

text \<open>
  The claim as stated fails: the \<^verbatim>\<open>=\<close> is the character at offset 2, and the position of
  the error is neither the position of offset 2 nor that of offset 3, where the \<^verbatim>\<open>=\<close> ends.
\<close>

theorem assignment_target_error_counterexample:
  "''1 = 2'' ! 2 = CHR ''=''
   \<and> error_position (parse_code 40 ''1 = 2'') \<noteq> Some (linecol_from_position ''1 = 2'' 2)
   \<and> error_position (parse_code 40 ''1 = 2'') \<noteq> Some (linecol_from_position ''1 = 2'' 3)"
  by (simp add: parser_defs lexer_defs pattern_defs)

text \<open>
  Claim C6, as the code has it. \<^verbatim>\<open>fun f() return 1\<close> raises the \<open>ParseError\<close> with the
  message \<^verbatim>\<open>Code block need braces\<close> and the position line 1, column 15: the lookahead
  token \<^verbatim>\<open>return\<close> has been read when the brace is found missing, and the lexer is at
  offset 14, after it.
\<close>

theorem function_body_braces_error:
  "parse_code 40 ''fun f() return 1'' =
     Inl (ParseError_init ''Code block need braces'' ''fun f() return 1'' (at 1 15))
   \<and> at 1 15 = linecol_from_position ''fun f() return 1'' 14"
  by (simp add: parser_defs lexer_defs pattern_defs Let_def str_nat.simps digit_char_def
      replicate_numeral)

text \<open>
  The claim as stated fails: the \<^verbatim>\<open>)\<close> is the character at offset 6, and the position of
  the error is not the position of offset 7, immediately after it.
\<close>

theorem function_body_braces_error_counterexample:
  "''fun f() return 1'' ! 6 = CHR '')''
   \<and> error_position (parse_code 40 ''fun f() return 1'')
       \<noteq> Some (linecol_from_position ''fun f() return 1'' 7)"
  by (simp add: parser_defs lexer_defs pattern_defs)

subsection \<open>Position resolver\<close>

text \<open>
  Claim C8 does not hold of the code. The loop adds the length of each line to
  \<^verbatim>\<open>curpos\<close> and leaves out the line feed that ends it, so after a line feed the column is
  too large. In \<^verbatim>\<open>"ab\ncd"\<close> the character at offset 3 is the \<^verbatim>\<open>c\<close> that starts line 2;
  the resolver gives line 2, column 2.
\<close>

theorem linecol_after_newline:
  "split_nl (''ab'' @ [nl] @ ''cd'') = [''ab'', ''cd'']
   \<and> (''ab'' @ [nl] @ ''cd'') ! 3 = CHR ''c''
   \<and> linecol_from_position (''ab'' @ [nl] @ ''cd'') 3 = at 2 2"
  by (simp add: linecol_from_position_def nl_def)

subsection \<open>Spans\<close>

text \<open>
  Claim C9 does not hold of the code. The text of a line feed, \<^verbatim>\<open>a\<close> and a space parses;
  the node of \<^verbatim>\<open>a\<close> starts at the position of offset 2, which the resolver gives as line 2,
  column 3, and ends at the position of offset 3, which falls through the loop of the
  resolver and is given as line 2, column 2.
\<close>

theorem span_start_after_end:
  "parse_code 40 (nl # ''a '') =
     Inr (CodeBlockNode (from_to (at 1 1) (at 2 2))
       [CodeBlockNode (from_to (at 2 3) (at 2 2))
         [IdentNode (from_to (at 2 3) (at 2 2)) ''a'']])
   \<and> \<not> span_ordered (IdentNode (from_to (at 2 3) (at 2 2)) ''a'')
   \<and> \<not> spans_ok (CodeBlockNode (from_to (at 1 1) (at 2 2))
       [CodeBlockNode (from_to (at 2 3) (at 2 2))
         [IdentNode (from_to (at 2 3) (at 2 2)) ''a'']])"
  by (simp add: parser_defs lexer_defs pattern_defs spans_ok_def span_ordered_def
      span_within_def LineCol_le_def)

subsection \<open>Traversal\<close>

lemma fold_recorder: "fold recorder xs log = log @ xs"
  by (induction xs arbitrary: log) (simp_all add: recorder_def)

lemma postorder_children: "postorder n = concat (map postorder (children n)) @ [n]"
  by (cases n) simp_all

lemma length_concat_postorder: "length cs \<le> length (concat (map postorder cs))"
proof (induction cs)
  case Nil
  show ?case by simp
next
  case (Cons c cs)
  have "1 \<le> length (postorder c)"
    by (subst postorder_children) simp
  with Cons.IH show ?case by simp
qed

lemma concat_postorder_leaves:
  "(concat (map postorder cs) = cs) = (\<forall>c \<in> set cs. children c = [])"
proof (induction cs)
  case Nil
  show ?case by simp
next
  case (Cons c cs)
  show ?case
  proof (cases "children c = []")
    case True
    then have "postorder c = [c]"
      by (subst postorder_children) simp
    with Cons.IH True show ?thesis by simp
  next
    case False
    then have "1 \<le> length (children c)"
      by (cases "children c") simp_all
    with length_concat_postorder [of "children c"]
    have "2 \<le> length (postorder c)"
      by (subst postorder_children) simp
    with length_concat_postorder [of cs]
    have "length (c # cs) < length (concat (map postorder (c # cs)))"
      by simp
    then have "concat (map postorder (c # cs)) \<noteq> c # cs"
      by (metis less_irrefl)
    with False show ?thesis by simp
  qed
qed

text \<open>
  Claim C1, as the code has it. \<^verbatim>\<open>visit\<close> of a node calls the callback on the children of
  the node, each once and in the order of the fields, and then on the node; it does not
  call \<^verbatim>\<open>visit\<close> of a child, so no node below the children is reached. What a recording
  callback observes is the post-order of the whole tree exactly when every child is a
  leaf. Nothing is said of \<^verbatim>\<open>AssignmentNode\<close>, the one class with a child and no \<^verbatim>\<open>visit\<close>
  of its own.
\<close>

theorem visit_children_then_self:
  assumes "\<forall>sp ident expr. n \<noteq> AssignmentNode sp ident expr"
  shows "visit n recorder log = log @ children n @ [n]
    \<and> ((visit n recorder [] = postorder n) = (\<forall>c \<in> set (children n). children c = []))"
proof -
  from assms have v: "visit n recorder log = log @ children n @ [n]" for log
    by (cases n) (simp_all add: BaseNode_visit_def fold_recorder, simp_all add: recorder_def)
  have "(visit n recorder [] = postorder n) = (children n = concat (map postorder (children n)))"
    by (subst postorder_children) (simp add: v)
  also have "\<dots> = (\<forall>c \<in> set (children n). children c = [])"
    using concat_postorder_leaves [of "children n"] by auto
  finally show ?thesis using v by simp
qed

theorem visit_children_then_self_witness:
  "(\<forall>sp ident expr. BinaryOperationNode (from_to (at 1 2) (at 1 6))
        (ValueNode (from_to (at 1 2) (at 1 4)) ''1'') ADD
        (ValueNode (from_to (at 1 6) (at 1 6)) ''2'') \<noteq> AssignmentNode sp ident expr)
   \<and> visit (BinaryOperationNode (from_to (at 1 2) (at 1 6))
        (ValueNode (from_to (at 1 2) (at 1 4)) ''1'') ADD
        (ValueNode (from_to (at 1 6) (at 1 6)) ''2'')) recorder [] =
      [ValueNode (from_to (at 1 2) (at 1 4)) ''1'',
       ValueNode (from_to (at 1 6) (at 1 6)) ''2'',
       BinaryOperationNode (from_to (at 1 2) (at 1 6))
        (ValueNode (from_to (at 1 2) (at 1 4)) ''1'') ADD
        (ValueNode (from_to (at 1 6) (at 1 6)) ''2'')]"
  using visit_children_then_self [of "BinaryOperationNode (from_to (at 1 2) (at 1 6))
        (ValueNode (from_to (at 1 2) (at 1 4)) ''1'') ADD
        (ValueNode (from_to (at 1 6) (at 1 6)) ''2'')" "[]"]
  by simp

text \<open>
  The claim as stated fails on the tree of \<^verbatim>\<open>var x\<close>: the root block holds a block that
  holds the declaration; \<^verbatim>\<open>visit\<close> of the root calls the callback on the inner block and
  on the root, and never on the declaration, the first node of the post-order.
\<close>

theorem visit_not_postorder_counterexample:
  "parse_code 40 ''var x'' =
     Inr (CodeBlockNode (from_to (at 1 1) (at 1 6))
       [CodeBlockNode (from_to (at 1 4) (at 1 6))
         [DeclarationNode (from_to (at 1 4) (at 1 6)) ''x'']])
   \<and> visit (CodeBlockNode (from_to (at 1 1) (at 1 6))
       [CodeBlockNode (from_to (at 1 4) (at 1 6))
         [DeclarationNode (from_to (at 1 4) (at 1 6)) ''x'']]) recorder []
     \<noteq> postorder (CodeBlockNode (from_to (at 1 1) (at 1 6))
       [CodeBlockNode (from_to (at 1 4) (at 1 6))
         [DeclarationNode (from_to (at 1 4) (at 1 6)) ''x'']])
   \<and> DeclarationNode (from_to (at 1 4) (at 1 6)) ''x''
     \<notin> set (visit (CodeBlockNode (from_to (at 1 1) (at 1 6))
       [CodeBlockNode (from_to (at 1 4) (at 1 6))
         [DeclarationNode (from_to (at 1 4) (at 1 6)) ''x'']]) recorder [])"
  by (simp add: parser_defs lexer_defs pattern_defs BaseNode_visit_def recorder_def)

end
